theory Spec2Isabelle
  imports Complex_Main "HOL-Library.Log_Nat"
begin

section \<open>The cells: float32 numbers\<close>

text \<open>
  The notebook \<open>conv-layer.ipynb\<close> works on two-dimensional arrays of the array library,
  whose cells are float32 numbers (IEEE 754 binary32): \<open>np.zeros\<close>, \<open>np.ones\<close> and
  \<open>np.array\<close> create float32 arrays, and every product and sum on them is rounded to
  float32 again.

  A float32 is a signed zero, a finite number \<open>m * 2 ^ e\<close> kept with an odd mantissa \<open>m\<close>
  (so that equal numbers are equal terms), a signed infinity, or not-a-number. The sign is
  \<open>True\<close> for negative.
\<close>

datatype f32 = Zero bool | Finite int int | Infinity bool | NaN

text \<open>The finite number \<open>m * 2 ^ e\<close> with the factors of two moved into the exponent.\<close>

function normal :: "int \<Rightarrow> int \<Rightarrow> f32" where
  "normal m e =
     (if m = 0 then Zero False
      else if even m then normal (m div 2) (e + 1)
      else Finite m e)"
  by pat_completeness auto
termination
  by (relation "measure (\<lambda>(m, e). nat \<bar>m\<bar>)") auto

declare normal.simps [simp del]

text \<open>
  The float32 nearest to the exact number \<open>m * 2 ^ e\<close>, ties to the even mantissa
  (the default rounding). A float32 has 24 mantissa bits; the last bit of a result is worth
  \<open>2 ^ q\<close>, where \<open>q\<close> is at least \<open>- 149\<close> (the subnormal range); a rounded magnitude of
  \<open>2 ^ 128\<close> or more overflows to infinity, and one that rounds to nothing is a zero with the
  sign of the exact number.
\<close>

definition round32 :: "int \<Rightarrow> int \<Rightarrow> f32" where
  "round32 m e =
     (if m = 0 then Zero False
      else
        let neg = m < 0; n = \<bar>m\<bar>; q = max (e + bitlen n - 24) (- 149) in
        if q \<le> e then (if 128 < e + bitlen n then Infinity neg else normal m e)
        else
          let d = nat (q - e); k = n div 2 ^ d; r = n mod 2 ^ d; half = 2 ^ (d - 1);
              k' = (if half < r \<or> (r = half \<and> odd k) then k + 1 else k)
          in if k' = 0 then Zero neg
             else if 128 < bitlen k' + q then Infinity neg
             else normal (if neg then - k' else k') q)"

fun negative :: "f32 \<Rightarrow> bool" where
  "negative (Zero s) = s"
| "negative (Finite m e) = (m < 0)"
| "negative (Infinity s) = s"
| "negative NaN = False"

text \<open>The float32 product: the exact product, rounded.\<close>

fun fmul :: "f32 \<Rightarrow> f32 \<Rightarrow> f32" where
  "fmul NaN y = NaN"
| "fmul x NaN = NaN"
| "fmul (Infinity s) (Zero t) = NaN"
| "fmul (Zero s) (Infinity t) = NaN"
| "fmul (Infinity s) y = Infinity (s \<noteq> negative y)"
| "fmul x (Infinity t) = Infinity (negative x \<noteq> t)"
| "fmul (Zero s) y = Zero (s \<noteq> negative y)"
| "fmul x (Zero t) = Zero (negative x \<noteq> t)"
| "fmul (Finite m1 e1) (Finite m2 e2) = round32 (m1 * m2) (e1 + e2)"

text \<open>
  The float32 sum: the exact sum, rounded; an exact sum of zero is \<open>+0\<close>, except that
  \<open>-0 + -0\<close> is \<open>-0\<close>.
\<close>

fun fadd :: "f32 \<Rightarrow> f32 \<Rightarrow> f32" where
  "fadd NaN y = NaN"
| "fadd x NaN = NaN"
| "fadd (Infinity s) (Infinity t) = (if s = t then Infinity s else NaN)"
| "fadd (Infinity s) y = Infinity s"
| "fadd x (Infinity t) = Infinity t"
| "fadd (Zero s) (Zero t) = Zero (s \<and> t)"
| "fadd (Zero s) y = y"
| "fadd x (Zero t) = x"
| "fadd (Finite m1 e1) (Finite m2 e2) =
     (let e = min e1 e2; m = m1 * 2 ^ nat (e1 - e) + m2 * 2 ^ nat (e2 - e)
      in round32 m e)"

text \<open>The float32 of an integer, as \<open>np.array\<close> makes of the literal \<open>3.0\<close>.\<close>

definition flt :: "int \<Rightarrow> f32" where
  "flt n = round32 n 0"

text \<open>The real number a float32 stands for, if it is one.\<close>

fun fval :: "f32 \<Rightarrow> real option" where
  "fval (Zero s) = Some 0"
| "fval (Finite m e) =
     Some (if 0 \<le> e then of_int m * 2 ^ nat e else of_int m / 2 ^ nat (- e))"
| "fval (Infinity s) = None"
| "fval NaN = None"

section \<open>The arithmetic of the array library\<close>

text \<open>
  \<open>corr2d\<close> computes with the array library's operations only: the zero that \<open>np.zeros\<close>
  fills in, the elementwise \<open>*\<close> and \<open>+\<close>, and the reduction \<open>.sum()\<close> of all cells of an
  array, given here the cells in row-major order. The library is not part of the source, so
  the array operations below take its arithmetic as a parameter.
\<close>

record 'a arith =
  azero :: 'a
  aone :: 'a
  amul :: "'a \<Rightarrow> 'a \<Rightarrow> 'a"
  aadd :: "'a \<Rightarrow> 'a \<Rightarrow> 'a"
  asum :: "'a list \<Rightarrow> 'a"

text \<open>
  The float32 arithmetic. Its reduction is the plain summation of the specification's
  numeric semantics: the cells are added one by one, in row-major order, to a running sum
  that starts at \<open>+0\<close>, with a rounding after each addition.
\<close>

definition float32 :: "f32 arith" where
  "float32 = \<lparr>azero = Zero False, aone = flt 1, amul = fmul, aadd = fadd,
              asum = foldl fadd (Zero False)\<rparr>"

section \<open>Two-dimensional arrays\<close>

text \<open>
  An array carries its shape explicitly (a shape such as \<open>(0, 5)\<close> has no rows but still a
  width) and its cells row by row.
\<close>

record 'a ndarray =
  nrows :: nat
  ncols :: nat
  cells :: "'a list list"

text \<open>The errors the array operations used by the notebook can raise.\<close>

datatype error =
    NegativeDimensions
  | BroadcastError
  | IndexError
  | DanglingReference

definition shape :: "'a ndarray \<Rightarrow> nat \<times> nat" where
  "shape A = (nrows A, ncols A)"

text \<open>An array is well formed when its cells agree with its shape.\<close>

definition well_formed :: "'a ndarray \<Rightarrow> bool" where
  "well_formed A \<longleftrightarrow> length (cells A) = nrows A \<and> list_all (\<lambda>r. length r = ncols A) (cells A)"

text \<open>\<open>A[i, j]\<close>, read only at coordinates inside the shape.\<close>

definition cell :: "'a ndarray \<Rightarrow> nat \<Rightarrow> nat \<Rightarrow> 'a" where
  "cell A i j = cells A ! i ! j"

text \<open>
  \<open>np.zeros((m, n))\<close>: the two dimensions are Python integers, and the constructor rejects a
  negative one; a dimension of zero gives an empty array.
\<close>

definition np_zeros :: "'a arith \<Rightarrow> int \<times> int \<Rightarrow> error + 'a ndarray" where
  "np_zeros A s = (case s of (m, n) \<Rightarrow>
     if m < 0 \<or> n < 0 then Inl NegativeDimensions
     else Inr \<lparr>nrows = nat m, ncols = nat n,
               cells = replicate (nat m) (replicate (nat n) (azero A))\<rparr>)"

text \<open>\<open>np.ones((m, n))\<close> for natural dimensions.\<close>

definition np_ones :: "'a arith \<Rightarrow> nat \<times> nat \<Rightarrow> 'a ndarray" where
  "np_ones A s = (case s of (m, n) \<Rightarrow>
     \<lparr>nrows = m, ncols = n, cells = replicate m (replicate n (aone A))\<rparr>)"

text \<open>
  The length of the slice \<open>a:b\<close> of an axis of length \<open>n\<close>, for bounds that are not negative:
  Python clamps both bounds to the axis.
\<close>

definition slice_len :: "nat \<Rightarrow> nat \<Rightarrow> nat \<Rightarrow> nat" where
  "slice_len a b n = min b n - min a n"

text \<open>\<open>X[a:b, c:d]\<close> with bounds that are not negative.\<close>

definition getslice :: "'a ndarray \<Rightarrow> nat \<Rightarrow> nat \<Rightarrow> nat \<Rightarrow> nat \<Rightarrow> 'a ndarray" where
  "getslice X a b c d =
     \<lparr>nrows = slice_len a b (nrows X), ncols = slice_len c d (ncols X),
      cells = map (\<lambda>r. take (d - c) (drop c r)) (take (b - a) (drop a (cells X)))\<rparr>"

text \<open>\<open>X[:, c:d] = v\<close>: every row gets the scalar \<open>v\<close> in the columns \<open>c..d-1\<close> it has.\<close>

definition setcols :: "'a ndarray \<Rightarrow> nat \<Rightarrow> nat \<Rightarrow> 'a \<Rightarrow> 'a ndarray" where
  "setcols X c d v =
     X\<lparr>cells := map (\<lambda>r. map (\<lambda>j. if c \<le> j \<and> j < d then v else r ! j) [0..<length r])
                     (cells X)\<rparr>"

text \<open>
  Broadcasting of one axis: two lengths are compatible when they are equal or one of them
  is 1, and the result takes the other one.
\<close>

definition bdim :: "nat \<Rightarrow> nat \<Rightarrow> nat option" where
  "bdim a b = (if a = b then Some a else if a = 1 then Some b
               else if b = 1 then Some a else None)"

text \<open>The coordinate read in an operand on an axis of length \<open>n\<close> for result coordinate \<open>i\<close>.\<close>

definition bidx :: "nat \<Rightarrow> nat \<Rightarrow> nat" where
  "bidx n i = (if n = 1 then 0 else i)"

text \<open>Elementwise binary operation \<open>A op B\<close> of two arrays, with broadcasting.\<close>

definition elementwise :: "('a \<Rightarrow> 'a \<Rightarrow> 'a) \<Rightarrow> 'a ndarray \<Rightarrow> 'a ndarray \<Rightarrow> error + 'a ndarray" where
  "elementwise f A B =
     (case (bdim (nrows A) (nrows B), bdim (ncols A) (ncols B)) of
        (Some m, Some n) \<Rightarrow>
          Inr \<lparr>nrows = m, ncols = n,
               cells = map (\<lambda>i. map (\<lambda>j. f (cell A (bidx (nrows A) i) (bidx (ncols A) j))
                                           (cell B (bidx (nrows B) i) (bidx (ncols B) j)))
                                 [0..<n]) [0..<m]\<rparr>
      | _ \<Rightarrow> Inl BroadcastError)"

definition np_multiply :: "'a arith \<Rightarrow> 'a ndarray \<Rightarrow> 'a ndarray \<Rightarrow> error + 'a ndarray" where
  "np_multiply A X Y = elementwise (amul A) X Y"

definition np_add :: "'a arith \<Rightarrow> 'a ndarray \<Rightarrow> 'a ndarray \<Rightarrow> error + 'a ndarray" where
  "np_add A X Y = elementwise (aadd A) X Y"

text \<open>\<open>X.sum()\<close>: the library's reduction of all cells, handed over in row-major order.\<close>

definition np_sum :: "'a arith \<Rightarrow> 'a ndarray \<Rightarrow> 'a" where
  "np_sum A X = asum A (concat (cells X))"

text \<open>\<open>Y[i, j] = v\<close> for coordinates that are not negative; outside the shape it raises.\<close>

definition setitem :: "'a ndarray \<Rightarrow> nat \<Rightarrow> nat \<Rightarrow> 'a \<Rightarrow> error + 'a ndarray" where
  "setitem Y i j v =
     (if i < nrows Y \<and> j < ncols Y
      then Inr (Y\<lparr>cells := (cells Y)[i := (cells Y ! i)[j := v]]\<rparr>)
      else Inl IndexError)"

text \<open>
  Modelled from the spec: \<open>d2l.transpose\<close>, which the notebook calls, is not among the
  source files; as the specification's \<open>transpose(X)\<close> of a grid, it swaps the two axes.
\<close>

definition transpose_nd :: "'a ndarray \<Rightarrow> 'a ndarray" where
  "transpose_nd X =
     \<lparr>nrows = ncols X, ncols = nrows X,
      cells = map (\<lambda>j. map (\<lambda>i. cell X i j) [0..<nrows X]) [0..<ncols X]\<rparr>"

section \<open>Cross-correlation\<close>

text \<open>
  \<^verbatim>\<open>
  def corr2d(X, K):
      h, w = K.shape
      Y = np.zeros((X.shape[0] - h + 1, X.shape[1] - w + 1))
      for i in range(Y.shape[0]):
          for j in range(Y.shape[1]):
              Y[i, j] = (X[i:i + h, j:j + w] * K).sum()
      return Y
  \<close>
  The inner loop, over the columns \<open>js\<close> still to visit in row \<open>i\<close>; \<open>Y\<close> is passed along and
  returned updated, and an exception ends the loop.
\<close>

fun corr2d_cols ::
  "'a arith \<Rightarrow> 'a ndarray \<Rightarrow> 'a ndarray \<Rightarrow> nat \<Rightarrow> nat \<Rightarrow> nat \<Rightarrow> nat list \<Rightarrow> 'a ndarray
     \<Rightarrow> error + 'a ndarray" where
  "corr2d_cols A X K h w i [] Y = Inr Y"
| "corr2d_cols A X K h w i (j # js) Y =
     (case np_multiply A (getslice X i (i + h) j (j + w)) K of
        Inl e \<Rightarrow> Inl e
      | Inr P \<Rightarrow>
          (case setitem Y i j (np_sum A P) of
             Inl e \<Rightarrow> Inl e
           | Inr Y' \<Rightarrow> corr2d_cols A X K h w i js Y'))"

text \<open>The outer loop, over the rows \<open>is\<close> still to visit.\<close>

fun corr2d_rows ::
  "'a arith \<Rightarrow> 'a ndarray \<Rightarrow> 'a ndarray \<Rightarrow> nat \<Rightarrow> nat \<Rightarrow> nat list \<Rightarrow> 'a ndarray
     \<Rightarrow> error + 'a ndarray" where
  "corr2d_rows A X K h w [] Y = Inr Y"
| "corr2d_rows A X K h w (i # is) Y =
     (case corr2d_cols A X K h w i [0..<ncols Y] Y of
        Inl e \<Rightarrow> Inl e
      | Inr Y' \<Rightarrow> corr2d_rows A X K h w is Y')"

definition corr2d :: "'a arith \<Rightarrow> 'a ndarray \<Rightarrow> 'a ndarray \<Rightarrow> error + 'a ndarray" where
  "corr2d A X K =
     (case shape K of (h, w) \<Rightarrow>
       (case np_zeros A (int (nrows X) - int h + 1, int (ncols X) - int w + 1) of
          Inl e \<Rightarrow> Inl e
        | Inr Y \<Rightarrow> corr2d_rows A X K h w [0..<nrows Y] Y))"

text \<open>
  The double sum of the contract, \<open>\<Sum>p<kh. \<Sum>q<kw. X[i+p][j+q] * K[p][q]\<close>, as the
  arithmetic \<open>A\<close> evaluates it: the reduction of the products of the window at \<open>(i, j)\<close>.
\<close>

definition window_sum :: "'a arith \<Rightarrow> 'a ndarray \<Rightarrow> 'a ndarray \<Rightarrow> nat \<Rightarrow> nat \<Rightarrow> 'a" where
  "window_sum A X K i j =
     asum A (concat (map (\<lambda>p. map (\<lambda>q. amul A (cell X (i + p) (j + q)) (cell K p q))
                                  [0..<ncols K]) [0..<nrows K]))"

subsection \<open>The inputs of the notebook\<close>

text \<open>\<open>X = np.array([[0.0, 1.0, 2.0], [3.0, 4.0, 5.0], [6.0, 7.0, 8.0]])\<close>\<close>

definition fig_X :: "f32 ndarray" where
  "fig_X = \<lparr>nrows = 3, ncols = 3, cells = map (map flt) [[0, 1, 2], [3, 4, 5], [6, 7, 8]]\<rparr>"

text \<open>\<open>K = np.array([[0.0, 1.0], [2.0, 3.0]])\<close>\<close>

definition fig_K :: "f32 ndarray" where
  "fig_K = \<lparr>nrows = 2, ncols = 2, cells = map (map flt) [[0, 1], [2, 3]]\<rparr>"

text \<open>\<open>X = np.ones((6, 8)); X[:, 2:6] = 0\<close>\<close>

definition edge_X :: "f32 ndarray" where
  "edge_X = setcols (np_ones float32 (6, 8)) 2 6 (flt 0)"

text \<open>\<open>K = np.array([[1.0, -1.0]])\<close>\<close>

definition edge_K :: "f32 ndarray" where
  "edge_K = \<lparr>nrows = 1, ncols = 2, cells = map (map flt) [[1, - 1]]\<rparr>"

subsection \<open>Inputs on which float32 rounds or overflows\<close>

text \<open>\<open>[[16777216.0, 1.0]]\<close> and \<open>[[1.0, 1.0]]\<close>: the sum \<open>2 ^ 24 + 1\<close> is not a float32.\<close>

definition wide_X :: "f32 ndarray" where
  "wide_X = \<lparr>nrows = 1, ncols = 2, cells = map (map flt) [[16777216, 1]]\<rparr>"

definition wide_K :: "f32 ndarray" where
  "wide_K = \<lparr>nrows = 1, ncols = 2, cells = map (map flt) [[1, 1]]\<rparr>"

text \<open>The same two arrays as columns.\<close>

definition tall_X :: "f32 ndarray" where
  "tall_X = \<lparr>nrows = 2, ncols = 1, cells = map (map flt) [[16777216], [1]]\<rparr>"

definition tall_K :: "f32 ndarray" where
  "tall_K = \<lparr>nrows = 2, ncols = 1, cells = map (map flt) [[1], [1]]\<rparr>"



subsection \<open>Arrays of integers\<close>


section \<open>The convolutional layer\<close>

text \<open>
  \<^verbatim>\<open>
  class Conv2D(nn.Block):
      def __init__(self, kernel_size, **kwargs):
          super().__init__(**kwargs)
          self.weight = self.params.get('weight', shape=kernel_size)
          self.bias = self.params.get('bias', shape=(1,))

      def forward(self, x):
          return corr2d(x, self.weight.data()) + self.bias.data()
  \<close>
  The layer holds the data of its two parameters: a two-dimensional weight and a
  one-dimensional bias, which the constructor declares with shape \<open>(1,)\<close>. The forward pass
  is modelled outside the recording of gradients.
\<close>

record 'a Conv2D =
  weight :: "'a ndarray"
  bias :: "'a list"

text \<open>Against a two-dimensional array, a one-dimensional operand broadcasts as a single row.\<close>

definition as_row :: "'a list \<Rightarrow> 'a ndarray" where
  "as_row b = \<lparr>nrows = 1, ncols = length b, cells = [b]\<rparr>"

definition forward :: "'a arith \<Rightarrow> 'a Conv2D \<Rightarrow> 'a ndarray \<Rightarrow> error + 'a ndarray" where
  "forward A c x =
     (case corr2d A x (weight c) of
        Inl e \<Rightarrow> Inl e
      | Inr Y \<Rightarrow> np_add A Y (as_row (bias c)))"

section \<open>Cross-correlation on a store of arrays\<close>

text \<open>
  Arrays are mutable objects, and \<open>corr2d\<close> receives references to them. To say which objects
  a call writes, the store is made explicit: a list of arrays, an address being a position
  in it. Allocation appends, so the new address names no earlier object. The temporaries of
  the expression \<open>(X[i:i + h, j:j + w] * K).sum()\<close> are unreachable once it is evaluated
  and are left out of the store; the slice itself is only read.
\<close>

type_synonym addr = nat
type_synonym 'a store = "'a ndarray list"

definition deref :: "'a store \<Rightarrow> addr \<Rightarrow> error + 'a ndarray" where
  "deref s a = (if a < length s then Inr (s ! a) else Inl DanglingReference)"

definition alloc :: "'a store \<Rightarrow> 'a ndarray \<Rightarrow> addr \<times> 'a store" where
  "alloc s X = (length s, s @ [X])"

definition zeros_st :: "'a arith \<Rightarrow> 'a store \<Rightarrow> int \<times> int \<Rightarrow> error + (addr \<times> 'a store)" where
  "zeros_st A s shp = (case np_zeros A shp of Inl e \<Rightarrow> Inl e | Inr Y \<Rightarrow> Inr (alloc s Y))"

text \<open>\<open>Y[i, j] = v\<close> through the reference \<open>y\<close>: the object at \<open>y\<close> is replaced by the updated one.\<close>

definition setitem_st :: "'a store \<Rightarrow> addr \<Rightarrow> nat \<Rightarrow> nat \<Rightarrow> 'a \<Rightarrow> error + 'a store" where
  "setitem_st s y i j v =
     (case deref s y of
        Inl e \<Rightarrow> Inl e
      | Inr Y \<Rightarrow> (case setitem Y i j v of Inl e \<Rightarrow> Inl e | Inr Y' \<Rightarrow> Inr (s[y := Y'])))"

text \<open>\<open>(X[i:i + h, j:j + w] * K).sum()\<close>, reading both operands from the current store.\<close>

definition window_st ::
  "'a arith \<Rightarrow> 'a store \<Rightarrow> addr \<Rightarrow> addr \<Rightarrow> nat \<Rightarrow> nat \<Rightarrow> nat \<Rightarrow> nat \<Rightarrow> error + 'a" where
  "window_st A s x k h w i j =
     (case deref s x of
        Inl e \<Rightarrow> Inl e
      | Inr X \<Rightarrow>
          (case deref s k of
             Inl e \<Rightarrow> Inl e
           | Inr K \<Rightarrow>
               (case np_multiply A (getslice X i (i + h) j (j + w)) K of
                  Inl e \<Rightarrow> Inl e
                | Inr P \<Rightarrow> Inr (np_sum A P))))"

fun corr2d_cols_st ::
  "'a arith \<Rightarrow> 'a store \<Rightarrow> addr \<Rightarrow> addr \<Rightarrow> addr \<Rightarrow> nat \<Rightarrow> nat \<Rightarrow> nat \<Rightarrow> nat list
     \<Rightarrow> error + 'a store" where
  "corr2d_cols_st A s x k y h w i [] = Inr s"
| "corr2d_cols_st A s x k y h w i (j # js) =
     (case window_st A s x k h w i j of
        Inl e \<Rightarrow> Inl e
      | Inr v \<Rightarrow>
          (case setitem_st s y i j v of
             Inl e \<Rightarrow> Inl e
           | Inr s' \<Rightarrow> corr2d_cols_st A s' x k y h w i js))"

fun corr2d_rows_st ::
  "'a arith \<Rightarrow> 'a store \<Rightarrow> addr \<Rightarrow> addr \<Rightarrow> addr \<Rightarrow> nat \<Rightarrow> nat \<Rightarrow> nat list
     \<Rightarrow> error + 'a store" where
  "corr2d_rows_st A s x k y h w [] = Inr s"
| "corr2d_rows_st A s x k y h w (i # is) =
     (case deref s y of
        Inl e \<Rightarrow> Inl e
      | Inr Y \<Rightarrow>
          (case corr2d_cols_st A s x k y h w i [0..<ncols Y] of
             Inl e \<Rightarrow> Inl e
           | Inr s' \<Rightarrow> corr2d_rows_st A s' x k y h w is))"

text \<open>The call \<open>corr2d(X, K)\<close> with \<open>X\<close> at \<open>x\<close> and \<open>K\<close> at \<open>k\<close>: the reference returned and the final store.\<close>

definition corr2d_st :: "'a arith \<Rightarrow> 'a store \<Rightarrow> addr \<Rightarrow> addr \<Rightarrow> error + (addr \<times> 'a store)" where
  "corr2d_st A s x k =
     (case deref s k of
        Inl e \<Rightarrow> Inl e
      | Inr K \<Rightarrow>
          (case shape K of (h, w) \<Rightarrow>
            (case deref s x of
               Inl e \<Rightarrow> Inl e
             | Inr X \<Rightarrow>
                 (case zeros_st A s (int (nrows X) - int h + 1, int (ncols X) - int w + 1) of
                    Inl e \<Rightarrow> Inl e
                  | Inr (y, s1) \<Rightarrow>
                      (case deref s1 y of
                         Inl e \<Rightarrow> Inl e
                       | Inr Y \<Rightarrow>
                           (case corr2d_rows_st A s1 x k y h w [0..<nrows Y] of
                              Inl e \<Rightarrow> Inl e
                            | Inr s2 \<Rightarrow> Inr (y, s2)))))))"

section \<open>The loop in closed form\<close>

lemma bidx_upt: "i < n \<Longrightarrow> bidx n i = i"
  by (auto simp: bidx_def)

lemma elementwise_same_shape:
  assumes "nrows X = nrows Y" "ncols X = ncols Y"
  shows "elementwise f X Y =
    Inr \<lparr>nrows = nrows Y, ncols = ncols Y,
         cells = map (\<lambda>i. map (\<lambda>j. f (cell X i j) (cell Y i j)) [0..<ncols Y]) [0..<nrows Y]\<rparr>"
  using assms by (simp add: elementwise_def bdim_def bidx_upt cong: map_cong)

lemma getslice_shape:
  assumes "i + h \<le> nrows X" "j + w \<le> ncols X"
  shows "nrows (getslice X i (i + h) j (j + w)) = h" "ncols (getslice X i (i + h) j (j + w)) = w"
  using assms by (simp_all add: getslice_def slice_len_def)

lemma well_formedD:
  assumes "well_formed X"
  shows "length (cells X) = nrows X" "\<forall>r\<in>set (cells X). length r = ncols X"
  using assms by (simp_all add: well_formed_def list_all_iff)

lemma getslice_cell:
  assumes "well_formed X" "i + h \<le> nrows X" "j + w \<le> ncols X" "p < h" "q < w"
  shows "cell (getslice X i (i + h) j (j + w)) p q = cell X (i + p) (j + q)"
proof -
  note wf = well_formedD[OF assms(1)]
  have "i + p < length (cells X)" using assms wf by simp
  then have "length (cells X ! (i + p)) = ncols X" using wf by simp
  then show ?thesis using assms wf
    by (simp add: cell_def getslice_def)
qed

lemma tabulate_cong:
  assumes "\<And>i j. i < m \<Longrightarrow> j < n \<Longrightarrow> f i j = g i j"
  shows "map (\<lambda>i. map (\<lambda>j. f i j) [0..<n]) [0..<m] = map (\<lambda>i. map (\<lambda>j. g i j) [0..<n]) [0..<m]"
  using assms by (simp cong: map_cong)

lemma cell_tabulate:
  "i < m \<Longrightarrow> j < n \<Longrightarrow>
   cell \<lparr>nrows = a, ncols = b, cells = map (\<lambda>i. map (\<lambda>j. f i j) [0..<n]) [0..<m]\<rparr> i j = f i j"
  by (simp add: cell_def)

text \<open>One evaluation of \<open>(X[i:i + h, j:j + w] * K).sum()\<close> where the window fits.\<close>

lemma window_step:
  assumes "well_formed X" "i + nrows K \<le> nrows X" "j + ncols K \<le> ncols X"
  shows "\<exists>P. np_multiply A (getslice X i (i + nrows K) j (j + ncols K)) K = Inr P \<and>
             np_sum A P = window_sum A X K i j"
proof -
  let ?S = "getslice X i (i + nrows K) j (j + ncols K)"
  have "np_multiply A ?S K = Inr \<lparr>nrows = nrows K, ncols = ncols K,
         cells = map (\<lambda>p. map (\<lambda>q. amul A (cell ?S p q) (cell K p q)) [0..<ncols K]) [0..<nrows K]\<rparr>"
    unfolding np_multiply_def using assms by (intro elementwise_same_shape getslice_shape)
  moreover have "map (\<lambda>p. map (\<lambda>q. amul A (cell ?S p q) (cell K p q)) [0..<ncols K]) [0..<nrows K]
     = map (\<lambda>p. map (\<lambda>q. amul A (cell X (i + p) (j + q)) (cell K p q)) [0..<ncols K]) [0..<nrows K]"
    using assms by (intro tabulate_cong) (simp add: getslice_cell)
  ultimately show ?thesis by (simp add: np_sum_def window_sum_def)
qed

lemma corr2d_cols_closed:
  assumes "well_formed X" "i + nrows K \<le> nrows X"
    "\<forall>j\<in>set js. j + ncols K \<le> ncols X \<and> j < ncols Y"
    "i < nrows Y" "length (cells Y) = nrows Y"
  shows "corr2d_cols A X K (nrows K) (ncols K) i js Y =
     Inr (Y\<lparr>cells := (cells Y)[i := foldl (\<lambda>r j. r[j := window_sum A X K i j]) (cells Y ! i) js]\<rparr>)"
  using assms
proof (induction js arbitrary: Y)
  case Nil
  then show ?case by simp
next
  case (Cons j js)
  obtain P where P: "np_multiply A (getslice X i (i + nrows K) j (j + ncols K)) K = Inr P"
    "np_sum A P = window_sum A X K i j"
    using window_step[of X i K j A] Cons.prems by auto
  let ?Y = "Y\<lparr>cells := (cells Y)[i := (cells Y ! i)[j := window_sum A X K i j]]\<rparr>"
  have upd: "setitem Y i j (window_sum A X K i j) = Inr ?Y"
    using Cons.prems by (simp add: setitem_def)
  have "corr2d_cols A X K (nrows K) (ncols K) i js ?Y =
     Inr (?Y\<lparr>cells := (cells ?Y)[i := foldl (\<lambda>r j. r[j := window_sum A X K i j]) (cells ?Y ! i) js]\<rparr>)"
    using Cons.prems by (intro Cons.IH) simp_all
  then show ?case using P upd Cons.prems by simp
qed

lemma foldl_update_upt:
  "m \<le> length r \<Longrightarrow> foldl (\<lambda>r j. r[j := f j]) r [0..<m] = map f [0..<m] @ drop m r"
proof (induction m)
  case 0
  then show ?case by simp
next
  case (Suc m)
  then have m: "m < length r" by simp
  have "drop m r = r ! m # drop (Suc m) r"
    using m by (simp add: Cons_nth_drop_Suc)
  then have "(map f [0..<m] @ drop m r)[m := f m] = map f [0..<m] @ f m # drop (Suc m) r"
    by (simp add: list_update_append)
  then show ?case using Suc m by simp
qed

lemma foldl_update_row:
  "length r = n \<Longrightarrow> foldl (\<lambda>r j. r[j := f j]) r [0..<n] = map f [0..<n]"
  using foldl_update_upt[of n r f] by simp

lemma corr2d_rows_closed:
  assumes "well_formed X" "ncols K + ncols Y \<le> Suc (ncols X)"
    "\<forall>i\<in>set is. i + nrows K \<le> nrows X \<and> i < nrows Y" "well_formed Y"
  shows "corr2d_rows A X K (nrows K) (ncols K) is Y =
     Inr (Y\<lparr>cells := foldl (\<lambda>rs i. rs[i := map (\<lambda>j. window_sum A X K i j) [0..<ncols Y]]) (cells Y) is\<rparr>)"
  using assms
proof (induction "is" arbitrary: Y)
  case Nil
  then show ?case by simp
next
  case (Cons i "is")
  note wf = well_formedD[OF Cons.prems(4)]
  have i: "i < nrows Y" "i + nrows K \<le> nrows X" using Cons.prems by simp_all
  then have rowi: "length (cells Y ! i) = ncols Y" using wf by simp
  let ?row = "map (\<lambda>j. window_sum A X K i j) [0..<ncols Y]"
  let ?Y = "Y\<lparr>cells := (cells Y)[i := ?row]\<rparr>"
  have "corr2d_cols A X K (nrows K) (ncols K) i [0..<ncols Y] Y =
     Inr (Y\<lparr>cells := (cells Y)[i := foldl (\<lambda>r j. r[j := window_sum A X K i j]) (cells Y ! i) [0..<ncols Y]]\<rparr>)"
    using Cons.prems i wf by (intro corr2d_cols_closed) auto
  then have cols: "corr2d_cols A X K (nrows K) (ncols K) i [0..<ncols Y] Y = Inr ?Y"
    using rowi by (simp add: foldl_update_row)
  have wfY: "well_formed ?Y"
    using wf by (auto simp: well_formed_def list_all_iff dest!: set_update_subset_insert[THEN subsetD])
  have "corr2d_rows A X K (nrows K) (ncols K) is ?Y =
     Inr (?Y\<lparr>cells := foldl (\<lambda>rs i. rs[i := map (\<lambda>j. window_sum A X K i j) [0..<ncols ?Y]]) (cells ?Y) is\<rparr>)"
    using Cons.prems wfY by (intro Cons.IH) simp_all
  then show ?case using cols by simp
qed

text \<open>Where the kernel fits, the two loops fill every cell of the output with its window sum.\<close>

lemma corr2d_closed:
  assumes "well_formed X" "nrows K \<le> nrows X" "ncols K \<le> ncols X"
  shows "corr2d A X K =
     Inr \<lparr>nrows = nrows X - nrows K + 1, ncols = ncols X - ncols K + 1,
          cells = map (\<lambda>i. map (\<lambda>j. window_sum A X K i j) [0..<ncols X - ncols K + 1])
                      [0..<nrows X - nrows K + 1]\<rparr>"
proof -
  define m n where m_n_def: "m = nrows X - nrows K + 1" "n = ncols X - ncols K + 1"
  define Y where "Y = \<lparr>nrows = m, ncols = n, cells = replicate m (replicate n (azero A))\<rparr>"
  have z: "np_zeros A (int (nrows X) - int (nrows K) + 1, int (ncols X) - int (ncols K) + 1) = Inr Y"
    using assms by (simp add: np_zeros_def nat_diff_distrib nat_add_distrib Y_def m_n_def)
  have wfY: "well_formed Y" by (simp add: well_formed_def list_all_iff Y_def)
  have shp: "nrows Y = m" "ncols Y = n" "cells Y = replicate m (replicate n (azero A))"
    by (simp_all add: Y_def)
  have "corr2d_rows A X K (nrows K) (ncols K) [0..<m] Y =
     Inr (Y\<lparr>cells := foldl (\<lambda>rs i. rs[i := map (\<lambda>j. window_sum A X K i j) [0..<ncols Y]]) (cells Y) [0..<m]\<rparr>)"
    using assms wfY shp by (intro corr2d_rows_closed) (auto simp: m_n_def)
  also have "foldl (\<lambda>rs i. rs[i := map (\<lambda>j. window_sum A X K i j) [0..<ncols Y]]) (cells Y) [0..<m]
      = map (\<lambda>i. map (\<lambda>j. window_sum A X K i j) [0..<n]) [0..<m]"
    unfolding shp by (rule foldl_update_row) simp
  finally have "corr2d_rows A X K (nrows K) (ncols K) [0..<m] Y =
     Inr \<lparr>nrows = m, ncols = n, cells = map (\<lambda>i. map (\<lambda>j. window_sum A X K i j) [0..<n]) [0..<m]\<rparr>"
    by (simp add: Y_def)
  then show ?thesis using z shp
    unfolding corr2d_def shape_def m_n_def[symmetric] by simp
qed

lemma well_formed_fig: "well_formed fig_X" "well_formed fig_K"
  by (simp_all add: well_formed_def fig_X_def fig_K_def)

text \<open>With no column to visit, the outer loop leaves the output as it is.\<close>

lemma corr2d_rows_no_cols:
  "ncols Y = 0 \<Longrightarrow> corr2d_rows A X K h w is Y = Inr Y"
  by (induction "is") simp_all



section \<open>The store-passing loops compute the value-level ones\<close>

lemma deref_append:
  "a < length s \<Longrightarrow> deref (s @ [Y]) a = Inr (s ! a)"
  "deref (s @ [Y]) (length s) = Inr Y"
  by (simp_all add: deref_def nth_append)

lemma corr2d_cols_st_refines:
  assumes "x < length s" "k < length s"
  shows "corr2d_cols_st A (s @ [Y]) x k (length s) h w i js =
     (case corr2d_cols A (s ! x) (s ! k) h w i js Y of
        Inl e \<Rightarrow> Inl e | Inr Y' \<Rightarrow> Inr (s @ [Y']))"
proof (induction js arbitrary: Y)
  case Nil
  then show ?case by simp
next
  case (Cons j js)
  show ?case
    using assms Cons.IH
    by (simp add: window_st_def setitem_st_def deref_append split: sum.splits)
qed

lemma corr2d_rows_st_refines:
  assumes "x < length s" "k < length s"
  shows "corr2d_rows_st A (s @ [Y]) x k (length s) h w is =
     (case corr2d_rows A (s ! x) (s ! k) h w is Y of
        Inl e \<Rightarrow> Inl e | Inr Y' \<Rightarrow> Inr (s @ [Y']))"
proof (induction "is" arbitrary: Y)
  case Nil
  then show ?case by simp
next
  case (Cons i "is")
  show ?case
    using assms Cons.IH
    by (simp add: deref_append corr2d_cols_st_refines split: sum.splits)
qed

lemma corr2d_st_refines:
  assumes "x < length s" "k < length s"
  shows "corr2d_st A s x k =
     (case corr2d A (s ! x) (s ! k) of Inl e \<Rightarrow> Inl e | Inr Y \<Rightarrow> Inr (length s, s @ [Y]))"
  using assms
  by (simp add: corr2d_st_def corr2d_def deref_def[of s] zeros_st_def alloc_def deref_append
      corr2d_rows_st_refines split: sum.splits prod.splits)

text \<open>A reference that names no object of the store makes the call fail.\<close>

lemma corr2d_st_dangling:
  assumes "\<not> (x < length s \<and> k < length s)"
  shows "corr2d_st A s x k = Inl DanglingReference"
  using assms by (auto simp: corr2d_st_def deref_def split: prod.splits)

section \<open>The values of the notebook\<close>

lemma figure_value:
  "corr2d float32 fig_X fig_K =
     Inr \<lparr>nrows = 2, ncols = 2, cells = map (map flt) [[19, 25], [37, 43]]\<rparr>"
  by code_simp

lemma transposed_edges_value:
  "corr2d float32 (transpose_nd edge_X) edge_K =
     Inr \<lparr>nrows = 8, ncols = 5, cells = replicate 8 (replicate 5 (flt 0))\<rparr>"
  by code_simp

text \<open>The bias is added in float32: \<open>16777216 + 1\<close> is rounded to \<open>16777216\<close>.\<close>

lemma forward_rounds:
  "forward float32 \<lparr>weight = \<lparr>nrows = 1, ncols = 1, cells = [[flt 1]]\<rparr>, bias = [flt 1]\<rparr>
      \<lparr>nrows = 1, ncols = 1, cells = [[flt 16777216]]\<rparr> =
     Inr \<lparr>nrows = 1, ncols = 1, cells = [[flt 16777216]]\<rparr>"
  by code_simp

section \<open>Exact float32 arithmetic on small integers\<close>




















section \<open>The contract of the cross-correlation\<close>

text \<open>
  Claim C1, as amended. For an input \<open>X\<close> of shape \<open>(H, W)\<close> and a kernel \<open>K\<close> of shape
  \<open>(kh, kw)\<close> with \<open>kh \<le> H\<close> and \<open>kw \<le> W\<close>, \<open>corr2d\<close> returns a grid \<open>Y\<close> whose cell at every
  output coordinate \<open>(i, j)\<close>, \<open>i \<le> H - kh\<close> and \<open>j \<le> W - kw\<close>, is the double sum over \<open>p < kh\<close>
  and \<open>q < kw\<close> of \<open>X[i+p][j+q] * K[p][q]\<close> as the arrays' arithmetic evaluates it: the
  library's reduction of the products, each a result of the library's multiplication, in
  row-major order.
\<close>

theorem corr2d_cells:
  assumes "well_formed X" "well_formed K" "nrows K \<le> nrows X" "ncols K \<le> ncols X"
  shows "\<exists>Y. corr2d A X K = Inr Y \<and>
     (\<forall>i\<le>nrows X - nrows K. \<forall>j\<le>ncols X - ncols K.
        cell Y i j =
          asum A (concat (map (\<lambda>p. map (\<lambda>q. amul A (cell X (i + p) (j + q)) (cell K p q))
                                      [0..<ncols K]) [0..<nrows K])))"
  unfolding corr2d_closed[OF assms(1,3,4)]
  by (auto simp: cell_tabulate window_sum_def simp del: upt_Suc)

theorem corr2d_cells_witness:
  "well_formed fig_X \<and> well_formed fig_K \<and> nrows fig_K \<le> nrows fig_X \<and> ncols fig_K \<le> ncols fig_X \<and>
   (\<exists>Y. corr2d float32 fig_X fig_K = Inr Y \<and>
     (\<forall>i\<le>nrows fig_X - nrows fig_K. \<forall>j\<le>ncols fig_X - ncols fig_K.
        cell Y i j =
          asum float32 (concat (map (\<lambda>p. map (\<lambda>q.
            amul float32 (cell fig_X (i + p) (j + q)) (cell fig_K p q))
              [0..<ncols fig_K]) [0..<nrows fig_K]))))"
proof -
  have fits: "nrows fig_K \<le> nrows fig_X" "ncols fig_K \<le> ncols fig_X"
    by (simp_all add: fig_X_def fig_K_def)
  from corr2d_cells[OF well_formed_fig fits, of float32] well_formed_fig fits show ?thesis by blast
qed

text \<open>
  In float32 the cell is not always the exact double sum that claim C1 states: for
  \<open>X = [[16777216, 1]]\<close> and \<open>K = [[1, 1]]\<close> the cell is \<open>16777216\<close>, the double sum
  \<open>16777217\<close>.
\<close>

theorem corr2d_cells_counterexample:
  "corr2d float32 wide_X wide_K = Inr \<lparr>nrows = 1, ncols = 1, cells = [[flt 16777216]]\<rparr> \<and>
   fval (flt 16777216) = Some 16777216 \<and>
   fval (cell wide_X 0 0) = Some 16777216 \<and> fval (cell wide_X 0 1) = Some 1 \<and>
   fval (cell wide_K 0 0) = Some 1 \<and> fval (cell wide_K 0 1) = Some 1 \<and>
   (16777216 :: real) \<noteq> 16777216 * 1 + 1 * 1"
proof -
  have "corr2d float32 wide_X wide_K = Inr \<lparr>nrows = 1, ncols = 1, cells = [[flt 16777216]]\<rparr>"
    by code_simp
  moreover have "flt 16777216 = Finite 1 24" "flt 1 = Finite 1 0"
    by code_simp+
  ultimately show ?thesis
    by (simp add: wide_X_def wide_K_def cell_def)
qed

text \<open>
  Claim C2. For an input of shape \<open>(H, W)\<close> and a kernel of shape \<open>(kh, kw)\<close> with \<open>kh \<le> H\<close>
  and \<open>kw \<le> W\<close>, the output of \<open>corr2d\<close> has shape exactly \<open>(H - kh + 1, W - kw + 1)\<close>, and
  its cells fill that shape.
\<close>

theorem corr2d_shape:
  assumes "well_formed X" "well_formed K" "nrows K \<le> nrows X" "ncols K \<le> ncols X"
  shows "\<exists>Y. corr2d A X K = Inr Y \<and> well_formed Y \<and>
     shape Y = (nrows X - nrows K + 1, ncols X - ncols K + 1)"
  using assms by (simp add: corr2d_closed shape_def well_formed_def list_all_iff)

theorem corr2d_shape_witness:
  "well_formed fig_X \<and> well_formed fig_K \<and> nrows fig_K \<le> nrows fig_X \<and> ncols fig_K \<le> ncols fig_X \<and>
   (\<exists>Y. corr2d float32 fig_X fig_K = Inr Y \<and> well_formed Y \<and> shape Y = (2, 2))"
proof -
  have fits: "nrows fig_K \<le> nrows fig_X" "ncols fig_K \<le> ncols fig_X"
    by (simp_all add: fig_X_def fig_K_def)
  from corr2d_shape[OF well_formed_fig fits, of float32] well_formed_fig fits show ?thesis
    by (simp add: fig_X_def fig_K_def numeral_2_eq_2)
qed

text \<open>
  Claim C3. When \<open>kh > H\<close> or \<open>kw > W\<close>, the caller of \<open>corr2d\<close> receives either an error or
  an empty grid of zero height or width, and nothing else. The error is the array
  constructor's, for a negative dimension, when the kernel exceeds the input by more than
  one along an axis; otherwise the result is the empty grid of zeros.
\<close>

theorem corr2d_kernel_too_large:
  assumes "nrows X < nrows K \<or> ncols X < ncols K"
  shows "corr2d A X K =
     (if nrows X + 1 < nrows K \<or> ncols X + 1 < ncols K then Inl NegativeDimensions
      else Inr \<lparr>nrows = nrows X + 1 - nrows K, ncols = ncols X + 1 - ncols K,
                cells = replicate (nrows X + 1 - nrows K)
                          (replicate (ncols X + 1 - ncols K) (azero A))\<rparr>)
     \<and> (nrows X + 1 - nrows K = 0 \<or> ncols X + 1 - ncols K = 0)"
proof (cases "nrows X + 1 < nrows K \<or> ncols X + 1 < ncols K")
  case True
  then have "np_zeros A (int (nrows X) - int (nrows K) + 1, int (ncols X) - int (ncols K) + 1)
      = Inl NegativeDimensions"
    by (auto simp: np_zeros_def)
  then show ?thesis using True assms by (auto simp: corr2d_def shape_def)
next
  case False
  define m n where m_n_def: "m = nrows X + 1 - nrows K" "n = ncols X + 1 - ncols K"
  define Y where "Y = \<lparr>nrows = m, ncols = n, cells = replicate m (replicate n (azero A))\<rparr>"
  have mn: "nat (int (nrows X) - int (nrows K) + 1) = m" "nat (int (ncols X) - int (ncols K) + 1) = n"
    using False by (auto simp: m_n_def)
  have z: "np_zeros A (int (nrows X) - int (nrows K) + 1, int (ncols X) - int (ncols K) + 1) = Inr Y"
    using False unfolding np_zeros_def Y_def mn[symmetric] by (auto simp: not_less)
  have empty: "m = 0 \<or> n = 0" using assms by (auto simp: m_n_def)
  have "corr2d_rows A X K (nrows K) (ncols K) [0..<m] Y = Inr Y"
  proof (cases "m = 0")
    case True
    then show ?thesis by simp
  next
    case False
    with empty have "ncols Y = 0" by (simp add: Y_def)
    then show ?thesis by (rule corr2d_rows_no_cols)
  qed
  then have "corr2d A X K = Inr Y" using z by (simp add: corr2d_def shape_def Y_def)
  then show ?thesis using False empty unfolding Y_def m_n_def by simp
qed

theorem corr2d_kernel_too_large_witness:
  "corr2d float32 fig_X
      \<lparr>nrows = 4, ncols = 2, cells = map (map flt) [[0, 1], [2, 3], [4, 5], [6, 7]]\<rparr>
      = Inr \<lparr>nrows = 0, ncols = 2, cells = []\<rparr> \<and>
   corr2d float32 fig_X
      \<lparr>nrows = 2, ncols = 5, cells = map (map flt) [[0, 1, 2, 3, 4], [5, 6, 7, 8, 9]]\<rparr>
      = Inl NegativeDimensions"
  using corr2d_kernel_too_large
          [of fig_X "\<lparr>nrows = 4, ncols = 2,
                      cells = map (map flt) [[0, 1], [2, 3], [4, 5], [6, 7]]\<rparr>" float32]
        corr2d_kernel_too_large
          [of fig_X "\<lparr>nrows = 2, ncols = 5,
                      cells = map (map flt) [[0, 1, 2, 3, 4], [5, 6, 7, 8, 9]]\<rparr>" float32]
  by (simp add: fig_X_def)




text \<open>
  Claim C5, as amended. When the kernel has the shape of the input, the output of \<open>corr2d\<close>
  has shape \<open>(1, 1)\<close> and its single cell is the sum over the whole input of the products
  \<open>X[p][q] * K[p][q]\<close> as the arrays' arithmetic evaluates it: the library's reduction of
  the products, each a result of the library's multiplication, in row-major order.
\<close>

theorem corr2d_same_shape:
  assumes "well_formed X" "well_formed K" "nrows K = nrows X" "ncols K = ncols X"
  shows "corr2d A X K =
     Inr \<lparr>nrows = 1, ncols = 1,
          cells = [[asum A (concat (map (\<lambda>p. map (\<lambda>q. amul A (cell X p q) (cell K p q))
                                               [0..<ncols X]) [0..<nrows X]))]]\<rparr>"
  using assms by (simp add: corr2d_closed window_sum_def)

theorem corr2d_same_shape_witness:
  "well_formed fig_K \<and>
   corr2d float32 fig_K fig_K =
     Inr \<lparr>nrows = 1, ncols = 1,
          cells = [[asum float32 (concat (map (\<lambda>p. map (\<lambda>q.
                      amul float32 (cell fig_K p q) (cell fig_K p q))
                        [0..<ncols fig_K]) [0..<nrows fig_K]))]]\<rparr> \<and>
   corr2d float32 fig_K fig_K = Inr \<lparr>nrows = 1, ncols = 1, cells = [[flt 14]]\<rparr>"
proof -
  have "corr2d float32 fig_K fig_K = Inr \<lparr>nrows = 1, ncols = 1, cells = [[flt 14]]\<rparr>"
    by code_simp
  with corr2d_same_shape[OF well_formed_fig(2) well_formed_fig(2) refl refl, of float32]
    well_formed_fig(2)
  show ?thesis by simp
qed

text \<open>
  In float32 the single cell is not always the exact sum that claim C5 states: for
  \<open>X = [[16777216], [1]]\<close> and \<open>K = [[1], [1]]\<close>, of one shape, the cell is \<open>16777216\<close>, the
  exact sum \<open>16777217\<close>.
\<close>

theorem corr2d_same_shape_counterexample:
  "shape tall_K = shape tall_X \<and>
   corr2d float32 tall_X tall_K = Inr \<lparr>nrows = 1, ncols = 1, cells = [[flt 16777216]]\<rparr> \<and>
   fval (flt 16777216) = Some 16777216 \<and>
   fval (cell tall_X 0 0) = Some 16777216 \<and> fval (cell tall_X 1 0) = Some 1 \<and>
   fval (cell tall_K 0 0) = Some 1 \<and> fval (cell tall_K 1 0) = Some 1 \<and>
   (16777216 :: real) \<noteq> 16777216 * 1 + 1 * 1"
proof -
  have "corr2d float32 tall_X tall_K = Inr \<lparr>nrows = 1, ncols = 1, cells = [[flt 16777216]]\<rparr>"
    by code_simp
  moreover have "flt 16777216 = Finite 1 24" "flt 1 = Finite 1 0"
    by code_simp+
  ultimately show ?thesis
    by (simp add: tall_X_def tall_K_def cell_def shape_def)
qed

text \<open>
  Claim C6. On the input \<open>[[0,1,2],[3,4,5],[6,7,8]]\<close> and the kernel \<open>[[0,1],[2,3]]\<close> of the
  notebook, \<open>corr2d\<close> returns exactly \<open>[[19,25],[37,43]]\<close>.
\<close>

theorem corr2d_figure:
  "corr2d float32 fig_X fig_K =
     Inr \<lparr>nrows = 2, ncols = 2, cells = map (map flt) [[19, 25], [37, 43]]\<rparr>"
  by (rule figure_value)

text \<open>
  Claim C7. For the \<open>6\<times>8\<close> input of ones whose columns 2 to 5 are zero and the kernel
  \<open>[[1, -1]]\<close>, \<open>corr2d\<close> returns a \<open>6\<times>7\<close> grid with 1 in column 1 (white to black), \<open>-1\<close> in
  column 5 (black to white) and 0 in every other cell.
\<close>

theorem corr2d_edges:
  "corr2d float32 edge_X edge_K =
     Inr \<lparr>nrows = 6, ncols = 7, cells = replicate 6 (map flt [0, 1, 0, 0, 0, - 1, 0])\<rparr>"
  by code_simp

text \<open>
  Claim C8, as amended. For the same input, transposed, and the kernel \<open>[[1, -1]]\<close>,
  \<open>corr2d\<close> returns an all-zero grid; the transposed input is \<open>8\<times>6\<close>, so the grid is \<open>8\<times>5\<close>.
\<close>

theorem corr2d_transposed_edges:
  "corr2d float32 (transpose_nd edge_X) edge_K =
     Inr \<lparr>nrows = 8, ncols = 5, cells = replicate 8 (replicate 5 (flt 0))\<rparr>"
  by (rule transposed_edges_value)

text \<open>The result is not the all-zero grid of shape \<open>8\<times>7\<close> that claim C8 states.\<close>

theorem corr2d_transposed_edges_counterexample:
  "corr2d float32 (transpose_nd edge_X) edge_K \<noteq>
     Inr \<lparr>nrows = 8, ncols = 7, cells = replicate 8 (replicate 7 (flt 0))\<rparr>"
  unfolding transposed_edges_value by simp

text \<open>
  Claim C9. A call of \<open>corr2d\<close> has no effect on the objects that exist before it: with
  valid references \<open>x\<close> and \<open>k\<close>, its outcome is that of the value-level function on the two
  arrays; when it returns, the result is a new object at an address no earlier object has
  (so neither \<open>x\<close> nor \<open>k\<close>), and every earlier object, the input and the kernel among them, is
  as before.
\<close>

theorem corr2d_st_pure:
  assumes "x < length s" "k < length s"
  shows "corr2d_st A s x k =
       (case corr2d A (s ! x) (s ! k) of Inl e \<Rightarrow> Inl e | Inr Y \<Rightarrow> Inr (length s, s @ [Y]))
     \<and> (\<forall>y s'. corr2d_st A s x k = Inr (y, s') \<longrightarrow>
           y \<noteq> x \<and> y \<noteq> k \<and> s' ! x = s ! x \<and> s' ! k = s ! k \<and> take (length s) s' = s \<and>
           length s' = Suc (length s))"
  using assms by (auto simp: corr2d_st_refines nth_append split: sum.splits)

theorem corr2d_st_pure_witness:
  "(0::nat) < length [fig_X, fig_K] \<and> (1::nat) < length [fig_X, fig_K] \<and>
   corr2d_st float32 [fig_X, fig_K] 0 1 =
      Inr (2, [fig_X, fig_K,
               \<lparr>nrows = 2, ncols = 2, cells = map (map flt) [[19, 25], [37, 43]]\<rparr>])"
proof -
  have valid: "(0::nat) < length [fig_X, fig_K]" "(1::nat) < length [fig_X, fig_K]" by simp_all
  from corr2d_st_pure[OF valid, of float32] figure_value show ?thesis by simp
qed



end
